theory Spec2Isabelle
  imports Complex_Main "HOL-Library.Multiset"
begin

section \<open>Data model of expand_dividends.py\<close>

text \<open>
  Exceptions of the Python code are values of \<open>error\<close>; a function that can raise returns
  \<open>error + 'a\<close> with \<open>Inl\<close> for the exception.
\<close>

datatype error = ValueError | TypeError | ZeroDivisionError | AssertionError
  | StopIteration | IndexError | OverflowError

text \<open>
  A \<open>datetime\<close> produced by the pattern \<open>%Y-%m-%d\<close> has no time of day, so it is modelled
  by its proleptic Gregorian ordinal (the number \<open>datetime.toordinal()\<close> returns): the
  difference of two dates is then their \<open>timedelta.days\<close>, and adding \<open>timedelta(days=d)\<close>
  adds \<open>d\<close>, as long as the result is a date \<open>datetime\<close> can represent. The functions below
  follow \<open>_ymd2ord\<close> of Python's datetime module.
  Amounts are Python floats in the code; the model computes with exact rationals.
\<close>

definition is_leap :: "int \<Rightarrow> bool" where
  "is_leap y = (if y mod 100 = 0 then y mod 400 = 0 else y mod 4 = 0)"

definition days_before_year :: "int \<Rightarrow> int" where
  "days_before_year y = (y - 1) * 365 + (y - 1) div 4 - (y - 1) div 100 + (y - 1) div 400"

definition days_before_month :: "int \<Rightarrow> nat \<Rightarrow> int" where
  "days_before_month y m =
     [0, 31, 59, 90, 120, 151, 181, 212, 243, 273, 304, 334] ! (m - 1)
       + (if 2 < m \<and> is_leap y then 1 else 0)"

definition datetime :: "int \<Rightarrow> nat \<Rightarrow> int \<Rightarrow> int" where
  "datetime y m d = days_before_year y + days_before_month y m + d"

text \<open>
  A \<open>datetime\<close> lies between 0001-01-01 (ordinal 1) and 9999-12-31; \<open>t + timedelta(days=d)\<close>
  raises OverflowError when the sum leaves this range.
\<close>

definition datetime_max :: int where
  "datetime_max = datetime 9999 12 31"

definition valid_datetime :: "int \<Rightarrow> bool" where
  "valid_datetime t = (1 \<le> t \<and> t \<le> datetime_max)"

definition py_date_add :: "int \<Rightarrow> int \<Rightarrow> error + int" where
  "py_date_add t d = (if valid_datetime (t + d) then Inr (t + d) else Inl OverflowError)"

record Dividend =
  date :: int
  end_date :: "int option"
  dividend :: "rat option"

text \<open>The constructor applied to a datetime and a float (or None): the values are stored as given.\<close>

definition mk_Dividend :: "int \<Rightarrow> rat option \<Rightarrow> Dividend" where
  "mk_Dividend t x = \<lparr>date = t, end_date = None, dividend = x\<rparr>"

datatype date_arg = DateStr string | DateObj int
datatype amount_arg = AmountStr string | AmountObj "rat option"

text \<open>
  \<open>Dividend.__init__\<close>. The library functions \<open>datetime.strptime(_, DATE_FORMAT)\<close> and
  \<open>float\<close> are parameters: each returns \<open>None\<close> where the library raises ValueError.
\<close>

definition Dividend_init ::
  "(string \<Rightarrow> int option) \<Rightarrow> (string \<Rightarrow> rat option) \<Rightarrow> date_arg \<Rightarrow> amount_arg \<Rightarrow> error + Dividend" where
  "Dividend_init strptime to_float d a =
     (case (case d of
              DateStr s \<Rightarrow> (case strptime s of None \<Rightarrow> Inl ValueError | Some t \<Rightarrow> Inr t)
            | DateObj t \<Rightarrow> Inr t) of
        Inl e \<Rightarrow> Inl e
      | Inr t \<Rightarrow>
          (case a of
             AmountStr s \<Rightarrow>
               (case to_float s of None \<Rightarrow> Inl ValueError | Some x \<Rightarrow> Inr (mk_Dividend t (Some x)))
           | AmountObj x \<Rightarrow> Inr (mk_Dividend t x)))"

text \<open>\<open>Dividend.__eq__\<close> compares date and dividend only.\<close>

definition Dividend_eq :: "Dividend \<Rightarrow> Dividend \<Rightarrow> bool" where
  "Dividend_eq a b = (if date a = date b then dividend a = dividend b else False)"

section \<open>Python primitives used by the code\<close>

text \<open>
  Subscription \<open>xs[i]\<close>: an index from \<open>-len(xs)\<close> up to \<open>-1\<close> is taken from the end of the
  list, and an index outside \<open>[-len(xs), len(xs))\<close> raises IndexError.
\<close>

definition py_get :: "'a list \<Rightarrow> int \<Rightarrow> error + 'a" where
  "py_get xs i =
     (if 0 \<le> i \<and> i < int (length xs) then Inr (xs ! nat i)
      else if i < 0 \<and> - int (length xs) \<le> i then Inr (xs ! nat (int (length xs) + i))
      else Inl IndexError)"

text \<open>\<open>min(xs, key=f)\<close> and \<open>max(xs, key=f)\<close>: the first extremal element, ValueError on [].\<close>

definition py_min_key :: "('a \<Rightarrow> int) \<Rightarrow> 'a list \<Rightarrow> error + 'a" where
  "py_min_key f xs =
     (case xs of [] \<Rightarrow> Inl ValueError
      | x # rest \<Rightarrow> Inr (foldl (\<lambda>m y. if f y < f m then y else m) x rest))"

definition py_max_key :: "('a \<Rightarrow> int) \<Rightarrow> 'a list \<Rightarrow> error + 'a" where
  "py_max_key f xs =
     (case xs of [] \<Rightarrow> Inl ValueError
      | x # rest \<Rightarrow> Inr (foldl (\<lambda>m y. if f m < f y then y else m) x rest))"

text \<open>\<open>a / b\<close> on two ints (true division).\<close>

definition py_truediv :: "int \<Rightarrow> int \<Rightarrow> error + rat" where
  "py_truediv a b = (if b = 0 then Inl ZeroDivisionError else Inr (of_int a / of_int b))"

text \<open>\<open>x / n\<close> where \<open>x\<close> is the dividend attribute (a float or None) and \<open>n\<close> an int.\<close>

definition py_amount_div :: "rat option \<Rightarrow> int \<Rightarrow> error + rat" where
  "py_amount_div x n =
     (case x of None \<Rightarrow> Inl TypeError
      | Some a \<Rightarrow> if n = 0 then Inl ZeroDivisionError else Inr (a / of_int n))"

text \<open>\<open>range(n)\<close>: empty when \<open>n \<le> 0\<close>.\<close>

definition py_range :: "int \<Rightarrow> int list" where
  "py_range n = map int [0..<nat n]"

section \<open>read_src_file\<close>

text \<open>
  The input is the list of records \<open>csv.reader\<close> yields for the file. \<open>csv.DictReader\<close>
  with \<open>fieldnames=FIELDS\<close> skips empty records, maps a missing field to None and puts
  surplus fields under the key None, which the keyword call of \<open>Dividend\<close> rejects
  with TypeError.
\<close>

definition row_to_Dividend ::
  "(string \<Rightarrow> int option) \<Rightarrow> (string \<Rightarrow> rat option) \<Rightarrow> string list \<Rightarrow> error + Dividend" where
  "row_to_Dividend strptime to_float row =
     (case row of
        [d] \<Rightarrow> Dividend_init strptime to_float (DateStr d) (AmountObj None)
      | [d, a] \<Rightarrow> Dividend_init strptime to_float (DateStr d) (AmountStr a)
      | _ \<Rightarrow> Inl TypeError)"

fun read_rows ::
  "(string \<Rightarrow> int option) \<Rightarrow> (string \<Rightarrow> rat option) \<Rightarrow> string list list \<Rightarrow> Dividend list
     \<Rightarrow> error + Dividend list" where
  "read_rows strptime to_float [] dividends = Inr dividends"
| "read_rows strptime to_float (row # rows) dividends =
     (case row_to_Dividend strptime to_float row of
        Inl e \<Rightarrow> Inl e
      | Inr d \<Rightarrow> read_rows strptime to_float rows (dividends @ [d]))"

definition csv_file :: "string list list \<Rightarrow> string list list" where
  "csv_file records = filter (\<lambda>r. r \<noteq> []) records"

definition read_src_file ::
  "(string \<Rightarrow> int option) \<Rightarrow> (string \<Rightarrow> rat option) \<Rightarrow> string list list \<Rightarrow> error + Dividend list" where
  "read_src_file strptime to_float records =
     (case csv_file records of
        [] \<Rightarrow> Inl StopIteration
      | header # rows \<Rightarrow>
          (case read_rows strptime to_float rows [] of
             Inl e \<Rightarrow> Inl e
           | Inr dividends \<Rightarrow> Inr (sort_key date dividends)))"

section \<open>last_dividend_before\<close>

text \<open>
  The loop over \<open>enumerate(dividends)\<close>: \<open>i\<close> is the index of the head of the remaining
  list. Falling off the end of the loop returns Python's None (\<open>Inr None\<close>).
\<close>

fun before_loop :: "Dividend list \<Rightarrow> int \<Rightarrow> nat \<Rightarrow> Dividend list \<Rightarrow> error + Dividend option" where
  "before_loop dividends q i [] = Inr None"
| "before_loop dividends q i (d # rest) =
     (if q < date d
      then (case py_get dividends (int i - 1) of Inl e \<Rightarrow> Inl e | Inr r \<Rightarrow> Inr (Some r))
      else before_loop dividends q (Suc i) rest)"

definition last_dividend_before :: "Dividend list \<Rightarrow> int \<Rightarrow> error + Dividend option" where
  "last_dividend_before dividends0 q =
     (let dividends = sort_key date dividends0 in before_loop dividends q 0 dividends)"

section \<open>avg_days_between\<close>

text \<open>
  One iteration of the loop on the state \<open>(s, last_div)\<close>; \<open>dv\<close> is the loop variable
  the source calls div.
\<close>

definition avg_step :: "Dividend \<Rightarrow> int \<times> Dividend option \<Rightarrow> int \<times> Dividend option" where
  "avg_step dv st =
     (case snd st of
        None \<Rightarrow> (fst st, Some dv)
      | Some last_div \<Rightarrow> (fst st + (date dv - date last_div), Some dv))"

definition avg_days_between :: "Dividend list \<Rightarrow> error + rat" where
  "avg_days_between dividends0 =
     (let dividends = sort_key date dividends0;
          s = fst (fold avg_step dividends (0, None))
      in py_truediv s (int (length dividends) - 1))"

section \<open>daily_dividends\<close>

text \<open>
  The inner loop \<open>for d in range(days_between): days.append(Dividend(src.date +
  timedelta(days=d), src.dividend / days_between))\<close>, used for the known periods with
  \<open>src = last_div\<close> and for the predicted period with \<open>src = dividends[-1]\<close>. The date is
  computed before the amount, so an unrepresentable date is reported first.
\<close>

fun spread :: "Dividend \<Rightarrow> int \<Rightarrow> int list \<Rightarrow> Dividend list \<Rightarrow> error + Dividend list" where
  "spread src days_between [] days = Inr days"
| "spread src days_between (d # ds) days =
     (case py_date_add (date src) d of
        Inl e \<Rightarrow> Inl e
      | Inr t \<Rightarrow>
         (case py_amount_div (dividend src) days_between of
            Inl e \<Rightarrow> Inl e
          | Inr a \<Rightarrow> spread src days_between ds (days @ [mk_Dividend t (Some a)])))"

text \<open>The outer loop from index 1 on: \<open>last_div\<close> is the element before \<open>dv\<close>.\<close>

fun interpolate :: "Dividend \<Rightarrow> Dividend list \<Rightarrow> Dividend list \<Rightarrow> error + Dividend list" where
  "interpolate last_div [] days = Inr days"
| "interpolate last_div (dv # rest) days =
     (let days_between = date dv - date last_div in
      case spread last_div days_between (py_range days_between) days of
        Inl e \<Rightarrow> Inl e
      | Inr days' \<Rightarrow> interpolate dv rest days')"

text \<open>
  The function sorts the caller's list in place before anything else, so the result is
  the pair of the caller's list after the call and the value returned or exception raised.
\<close>

definition daily_dividends :: "Dividend list \<Rightarrow> bool \<Rightarrow> Dividend list \<times> (error + Dividend list)" where
  "daily_dividends dividends0 predict_future_dividend =
     (let dividends = sort_key date dividends0 in
      (dividends,
       (case py_min_key date dividends of
          Inl e \<Rightarrow> Inl e
        | Inr lo \<Rightarrow>
           (case py_max_key date dividends of
              Inl e \<Rightarrow> Inl e
            | Inr hi \<Rightarrow>
               (case py_date_add (date hi) 1 of
                  Inl e \<Rightarrow> Inl e
                | Inr day_after \<Rightarrow>
                   (let range_of_dates = (date lo, day_after) in
                    if fst range_of_dates \<noteq> date (hd dividends) then Inl AssertionError
                    else
                      (case py_date_add (date (last dividends)) 1 of
                         Inl e \<Rightarrow> Inl e
                       | Inr last_after \<Rightarrow>
                          (if snd range_of_dates \<noteq> last_after then Inl AssertionError
                           else
                             (case interpolate (hd dividends) (tl dividends) [] of
                                Inl e \<Rightarrow> Inl e
                              | Inr days \<Rightarrow>
                                 (if predict_future_dividend
                                  then (case avg_days_between dividends of
                                          Inl e \<Rightarrow> Inl e
                                        | Inr avg \<Rightarrow>
                                           (let days_between = \<lceil>avg\<rceil> in
                                            spread (last dividends) days_between
                                              (py_range days_between) days))
                                  else Inr days))))))))))"

text \<open>The call with the default \<open>predict_future_dividend=True\<close>.\<close>

definition daily_dividends_default :: "Dividend list \<Rightarrow> Dividend list \<times> (error + Dividend list)" where
  "daily_dividends_default dividends = daily_dividends dividends True"

section \<open>Reference notions the properties are stated with\<close>

text \<open>Consecutive pairs \<open>(prev, next)\<close> of a sequence, and the day gaps between them.\<close>

definition pairs :: "'a list \<Rightarrow> ('a \<times> 'a) list" where
  "pairs xs = zip xs (tl xs)"

definition gaps :: "Dividend list \<Rightarrow> int list" where
  "gaps xs = map (\<lambda>(a, b). date b - date a) (pairs xs)"

text \<open>The arithmetic mean of the gaps.\<close>

definition mean_gap :: "Dividend list \<Rightarrow> rat" where
  "mean_gap xs = of_int (sum_list (gaps xs)) / of_nat (length (gaps xs))"

text \<open>
  The daily records of one known period: one per day offset \<open>d\<close> in \<open>[0, gap)\<close>, dated
  \<open>prev.date + d\<close>, each with amount \<open>prev.amount / gap\<close>.
\<close>

definition pair_days :: "Dividend \<Rightarrow> Dividend \<Rightarrow> Dividend list" where
  "pair_days prev nxt =
     map (\<lambda>d. \<lparr>date = date prev + int d, end_date = None,
               dividend = Some (the (dividend prev) / of_int (date nxt - date prev))\<rparr>)
       [0..<nat (date nxt - date prev)]"

text \<open>The records of all known periods of a sequence, in order.\<close>

definition known_days :: "Dividend list \<Rightarrow> Dividend list" where
  "known_days s = concat (map (\<lambda>(prev, nxt). pair_days prev nxt) (pairs s))"

text \<open>
  The predicted period: \<open>g\<close> records dated \<open>last.date + d\<close> for \<open>d\<close> in \<open>[0, g)\<close>, each with
  amount \<open>last.amount / g\<close>.
\<close>

definition future_days :: "Dividend \<Rightarrow> int \<Rightarrow> Dividend list" where
  "future_days lst g =
     map (\<lambda>d. \<lparr>date = date lst + int d, end_date = None,
               dividend = Some (the (dividend lst) / of_int g)\<rparr>) [0..<nat g]"

section \<open>Inputs of the test suite and sample data\<close>

text \<open>
  The input of \<open>TestExpander.test_daily_dividends\<close> and the list \<open>corr\<close> it builds:
  ninety records, one per day from 2020-08-11 on, each with amount 0.01.
\<close>

definition test_input :: "Dividend list" where
  "test_input = [mk_Dividend (datetime 2020 10 10) (Some (3 / 10)),
                 mk_Dividend (datetime 2020 9 10) (Some (3 / 10)),
                 mk_Dividend (datetime 2020 8 11) (Some (3 / 10))]"

definition test_corr :: "Dividend list" where
  "test_corr = map (\<lambda>d. mk_Dividend (datetime 2020 8 11 + int d) (Some (1 / 100))) [0..<90]"

text \<open>
  A source file of a header and two rows whose dates descend, with the values
  \<open>strptime\<close> and \<open>float\<close> give on the strings that occur in it.
\<close>

definition sample_strptime :: "string \<Rightarrow> int option" where
  "sample_strptime = map_of [(''2020-09-10'', datetime 2020 9 10), (''2020-08-11'', datetime 2020 8 11)]"

definition sample_float :: "string \<Rightarrow> rat option" where
  "sample_float = map_of [(''0.3'', 3 / 10)]"

definition sample_records :: "string list list" where
  "sample_records = [[''Date'', ''Dividends''], [''2020-09-10'', ''0.3''], [''2020-08-11'', ''0.3'']]"

section \<open>Auxiliary facts about the loops\<close>

lemma pairs_Cons: "pairs (x # y # ys) = (x, y) # pairs (y # ys)"
  by (simp add: pairs_def)

lemma pairs_single: "pairs [x] = []"
  by (simp add: pairs_def)

lemma spread_Some:
  "dividend src = Some a \<Longrightarrow> n \<noteq> 0 \<Longrightarrow> \<forall>d \<in> set ds. valid_datetime (date src + d) \<Longrightarrow>
   spread src n ds days = Inr (days @ map (\<lambda>d. mk_Dividend (date src + d) (Some (a / of_int n))) ds)"
  by (induction ds arbitrary: days) (simp_all add: py_amount_div_def py_date_add_def)

lemma spread_nonpos: "n \<le> 0 \<Longrightarrow> spread src n (py_range n) days = Inr days"
  by (simp add: py_range_def)

lemma spread_range:
  assumes "dividend src = Some a" "1 \<le> date src" "date src + n \<le> datetime_max + 1"
  shows "spread src n (py_range n) days =
         Inr (days @ map (\<lambda>d. mk_Dividend (date src + int d) (Some (a / of_int n))) [0..<nat n])"
proof (cases "n \<le> 0")
  case True
  then show ?thesis by (simp add: spread_nonpos)
next
  case False
  then have nz: "n \<noteq> 0" by simp
  have v: "\<forall>d \<in> set (py_range n). valid_datetime (date src + d)"
    using assms(2,3) by (auto simp: py_range_def valid_datetime_def)
  from spread_Some [OF assms(1) nz v] show ?thesis
    by (simp add: py_range_def comp_def)
qed

lemma spread_prefix: "spread src n ds days = Inr out \<Longrightarrow> \<exists>extra. out = days @ extra"
proof (induction ds arbitrary: days)
  case Nil
  then show ?case by simp
next
  case (Cons d ds)
  from Cons.prems obtain t a where "spread src n ds (days @ [mk_Dividend t (Some a)]) = Inr out"
    by (auto split: sum.splits)
  from Cons.IH [OF this] show ?case by auto
qed

lemma interpolate_closed:
  "\<forall>e \<in> set (p # rest). dividend e \<noteq> None \<and> valid_datetime (date e) \<Longrightarrow>
   interpolate p rest days = Inr (days @ concat (map (\<lambda>(a, b). pair_days a b) (pairs (p # rest))))"
proof (induction rest arbitrary: p days)
  case Nil
  then show ?case by (simp add: pairs_single)
next
  case (Cons q rest)
  from Cons.prems obtain a where a: "dividend p = Some a" by auto
  from Cons.prems have lo: "1 \<le> date p" and hi: "date p + (date q - date p) \<le> datetime_max + 1"
    by (auto simp: valid_datetime_def)
  from Cons.prems have rest: "\<forall>e \<in> set (q # rest). dividend e \<noteq> None \<and> valid_datetime (date e)"
    by simp
  show ?case
    by (simp add: Let_def spread_range [OF a lo hi] Cons.IH [OF rest] pairs_Cons pair_days_def a
        mk_Dividend_def)
qed

lemma min_key_sorted:
  "sorted (map f (x # xs)) \<Longrightarrow> foldl (\<lambda>m y. if f y < f m then y else m) x xs = x"
  by (induction xs) auto

lemma max_key_sorted:
  "sorted (map f (x # xs)) \<Longrightarrow> f (foldl (\<lambda>m y. if f m < f y then y else m) x xs) = f (last (x # xs))"
proof (induction xs arbitrary: x)
  case Nil
  then show ?case by simp
next
  case (Cons y ys)
  then have le: "f x \<le> f y" and sy: "sorted (map f (y # ys))" by auto
  show ?case
  proof (cases "f x < f y")
    case True
    then show ?thesis using Cons.IH [OF sy] by simp
  next
    case False
    with le have eq: "f x = f y" by simp
    with Cons.prems have "sorted (map f (x # ys))" by auto
    from Cons.IH [OF this] False eq show ?thesis by (cases ys) auto
  qed
qed

lemma avg_step_Some: "avg_step x (s, Some l) = (s + (date x - date l), Some x)"
  by (simp add: avg_step_def)

lemma avg_step_None: "avg_step x (s, None) = (s, Some x)"
  by (simp add: avg_step_def)

lemma gaps_Cons: "gaps (x # y # ys) = (date y - date x) # gaps (y # ys)"
  by (simp add: gaps_def pairs_def)

lemma gaps_single: "gaps [x] = []"
  by (simp add: gaps_def pairs_def)

lemma fold_avg_step:
  "fst (fold avg_step xs (s, Some l)) = s + sum_list (gaps (l # xs))"
proof (induction xs arbitrary: s l)
  case Nil
  then show ?case by (simp add: gaps_single)
next
  case (Cons x xs)
  show ?case by (simp add: avg_step_Some Cons.IH gaps_Cons)
qed

lemma fold_avg_step_start:
  "fst (fold avg_step xs (0, None)) = sum_list (gaps xs)"
proof (cases xs)
  case Nil
  then show ?thesis by (simp add: gaps_def pairs_def)
next
  case (Cons x ys)
  then show ?thesis by (simp add: avg_step_None fold_avg_step)
qed

lemma length_gaps: "length (gaps xs) = length xs - 1"
  by (simp add: gaps_def pairs_def)

lemma sum_gaps_telescope: "sum_list (gaps (x # xs)) = date (last (x # xs)) - date x"
  by (induction xs arbitrary: x) (simp_all add: gaps_single gaps_Cons)

lemma gaps_nonneg:
  assumes "sorted (map date xs)"
  shows "0 \<le> sum_list (gaps xs)"
proof (cases xs)
  case Nil
  then show ?thesis by (simp add: gaps_def pairs_def)
next
  case (Cons x ys)
  have "date x \<le> date (last (x # ys))"
  proof (cases ys)
    case Nil
    then show ?thesis by simp
  next
    case (Cons y zs)
    then have "last (x # ys) \<in> set ys" by simp
    with assms \<open>xs = x # ys\<close> show ?thesis by auto
  qed
  with Cons show ?thesis by (simp add: sum_gaps_telescope)
qed

lemma avg_days_between_mean:
  "2 \<le> length ds \<Longrightarrow> avg_days_between ds = Inr (mean_gap (sort_key date ds))"
  by (simp add: avg_days_between_def Let_def py_truediv_def fold_avg_step_start mean_gap_def
      length_gaps of_nat_diff)

lemma avg_days_between_sorted: "avg_days_between (sort_key date ds) = avg_days_between ds"
  by (simp add: avg_days_between_def sort_key_id_if_sorted)

lemma sorted_hd_min:
  assumes "ds \<noteq> []"
  shows "py_min_key date (sort_key date ds) = Inr (hd (sort_key date ds))"
proof -
  from assms obtain x xs where s: "sort_key date ds = x # xs"
    by (metis length_sort list.exhaust list.size(3) length_0_conv)
  have "sorted (map date (x # xs))" by (metis s sorted_sort_key)
  from min_key_sorted [OF this] show ?thesis by (simp add: s py_min_key_def)
qed

lemma sorted_last_max:
  assumes "ds \<noteq> []"
  shows "\<exists>hi. py_max_key date (sort_key date ds) = Inr hi \<and> date hi = date (last (sort_key date ds))"
proof -
  from assms obtain x xs where s: "sort_key date ds = x # xs"
    by (metis length_sort list.exhaust list.size(3) length_0_conv)
  have "sorted (map date (x # xs))" by (metis s sorted_sort_key)
  from max_key_sorted [OF this] show ?thesis by (simp add: s py_max_key_def)
qed

lemma daily_dividends_closed:
  assumes ne: "ds \<noteq> []" and am: "\<forall>e \<in> set ds. dividend e \<noteq> None"
    and va: "\<forall>e \<in> set ds. valid_datetime (date e)"
    and lt: "date (last (sort_key date ds)) < datetime_max"
  shows "daily_dividends ds p =
          (sort_key date ds,
           if p then (case avg_days_between ds of
                        Inl e \<Rightarrow> Inl e
                      | Inr avg \<Rightarrow> spread (last (sort_key date ds)) \<lceil>avg\<rceil> (py_range \<lceil>avg\<rceil>)
                                    (known_days (sort_key date ds)))
           else Inr (known_days (sort_key date ds)))"
proof -
  let ?s = "sort_key date ds"
  from ne obtain x xs where s: "?s = x # xs"
    by (metis length_sort list.exhaust list.size(3) length_0_conv)
  have mn: "py_min_key date ?s = Inr (hd ?s)" by (rule sorted_hd_min [OF ne])
  from sorted_last_max [OF ne] obtain hi
    where mx: "py_max_key date ?s = Inr hi" and hi: "date hi = date (last ?s)" by blast
  have "\<forall>e \<in> set (x # xs). dividend e \<noteq> None \<and> valid_datetime (date e)"
    using am va by (metis s set_sort)
  from interpolate_closed [OF this, of "[]"]
  have ip: "interpolate (hd ?s) (tl ?s) [] = Inr (known_days ?s)"
    by (simp add: s known_days_def)
  have "last ?s \<in> set ds" by (metis s last_in_set list.distinct(1) set_sort)
  with va have "1 \<le> date (last ?s)" by (auto simp: valid_datetime_def)
  with lt have ad: "py_date_add (date (last ?s)) 1 = Inr (date (last ?s) + 1)"
    by (simp add: py_date_add_def valid_datetime_def)
  have av: "avg_days_between ?s = avg_days_between ds" by (rule avg_days_between_sorted)
  show ?thesis
    unfolding daily_dividends_def Let_def mn mx
    by (simp add: hi ad ip av split: sum.splits)
qed

lemma future_days_spread:
  assumes "dividend lst = Some a" "1 \<le> date lst" "date lst + g \<le> datetime_max + 1"
  shows "spread lst g (py_range g) days = Inr (days @ future_days lst g)"
  by (simp add: spread_range [OF assms] future_days_def assms(1) mk_Dividend_def)

lemma pair_days_sum:
  assumes "date prev < date nxt" "dividend prev = Some a"
  shows "sum_list (map (\<lambda>r. the (dividend r)) (pair_days prev nxt)) = a"
proof -
  let ?n = "date nxt - date prev"
  have "sum_list (map (\<lambda>r. the (dividend r)) (pair_days prev nxt))
        = sum_list (map (\<lambda>d. a / of_int ?n) [0..<nat ?n])"
    by (simp add: pair_days_def assms(2) comp_def)
  also have "\<dots> = of_nat (nat ?n) * (a / of_int ?n)"
    by (simp add: sum_list_triv)
  also have "\<dots> = a" using assms(1) by simp
  finally show ?thesis .
qed

lemma pairs_sorted_lt:
  assumes "sorted (map date s)" "distinct (map date s)" "(a, b) \<in> set (pairs s)"
  shows "date a < date b \<and> date b \<le> date (last s)"
  using assms
proof (induction s)
  case Nil
  then show ?case by (simp add: pairs_def)
next
  case (Cons x xs)
  show ?case
  proof (cases xs)
    case Nil
    with Cons.prems show ?thesis by (simp add: pairs_single)
  next
    case (Cons y ys)
    with Cons.prems(3) have "(a, b) = (x, y) \<or> (a, b) \<in> set (pairs xs)"
      by (simp add: pairs_Cons)
    then show ?thesis
    proof
      assume "(a, b) = (x, y)"
      then have ab: "a = x" "b = y" by simp_all
      from Cons.prems(1,2) Cons have "date x \<le> date y" "date x \<noteq> date y" by auto
      moreover have "date y \<le> date (last (x # xs))"
      proof -
        have "last (x # xs) \<in> set xs" using Cons by simp
        then show ?thesis using Cons.prems(1) Cons by (cases "last (x # xs) = y") auto
      qed
      ultimately show ?thesis using ab by simp
    next
      assume "(a, b) \<in> set (pairs xs)"
      with Cons.IH Cons.prems(1,2) have "date a < date b \<and> date b \<le> date (last xs)" by simp
      then show ?thesis using Cons by simp
    qed
  qed
qed

lemma pair_days_dates: "r \<in> set (pair_days a b) \<Longrightarrow> date a \<le> date r \<and> date r < date b"
  by (auto simp: pair_days_def)

lemma known_days_before_last:
  assumes "sorted (map date s)" "distinct (map date s)" "r \<in> set (known_days s)"
  shows "date r < date (last s)"
proof -
  from assms(3) obtain a b where ab: "(a, b) \<in> set (pairs s)" and r: "r \<in> set (pair_days a b)"
    by (auto simp: known_days_def)
  from pairs_sorted_lt [OF assms(1,2) ab] pair_days_dates [OF r] show ?thesis by simp
qed

lemma read_rows_Inr:
  "read_rows sp tf rows acc = Inr out \<Longrightarrow>
   \<exists>es. out = acc @ es \<and> map (row_to_Dividend sp tf) rows = map Inr es"
proof (induction rows arbitrary: acc)
  case Nil
  then show ?case by simp
next
  case (Cons row rows)
  from Cons.prems obtain d where d: "row_to_Dividend sp tf row = Inr d"
    and r: "read_rows sp tf rows (acc @ [d]) = Inr out"
    by (auto split: sum.splits)
  from Cons.IH [OF r] obtain es where "out = (acc @ [d]) @ es"
    "map (row_to_Dividend sp tf) rows = map Inr es" by blast
  then have "out = acc @ (d # es) \<and> map (row_to_Dividend sp tf) (row # rows) = map Inr (d # es)"
    using d by simp
  then show ?case by blast
qed

lemma test_run_value:
  "snd (daily_dividends_default test_input) = Inr test_corr"
  by code_simp

lemma test_corr_dates: "map date test_corr = [datetime 2020 8 11..datetime 2020 11 8]"
  by code_simp

lemma test_corr_amounts: "map dividend test_corr = replicate 90 (Some (1 / 100))"
  by code_simp

lemma test_last_dividend_before:
  "last_dividend_before [mk_Dividend (datetime 2020 10 18) None, mk_Dividend (datetime 2020 10 20) None,
      mk_Dividend (datetime 2020 10 22) None] (datetime 2020 10 21)
   = Inr (Some (mk_Dividend (datetime 2020 10 20) None))"
  by code_simp

lemma last_dividend_before_wraps:
  "last_dividend_before [mk_Dividend (datetime 2020 10 18) None, mk_Dividend (datetime 2020 10 22) None]
      (datetime 2020 10 11)
   = Inr (Some (mk_Dividend (datetime 2020 10 22) None))"
  by code_simp

section \<open>Properties\<close>

text \<open>
  C1 (amended). For at least two events with distinct dates, none of them dated
  9999-12-31 (each a datetime, and each carrying an amount, which \<open>prev.amount / gap\<close>
  presupposes), the interpolation pass emits, for every consecutive pair \<open>(prev, next)\<close> of
  the date-sorted sequence, the records \<open>pair_days prev next\<close>: \<open>gap\<close> records dated
  \<open>prev.date + d\<close> for \<open>d\<close> in \<open>[0, gap)\<close>, each with amount \<open>prev.amount / gap\<close>, with
  \<open>gap > 0\<close>. With the flag off this is the whole output; with the flag on the predicted
  period is appended to exactly these records, so they are a prefix of whatever the call
  returns; and none of these records is dated at the final event's date.
\<close>

theorem interpolation_pass:
  assumes "2 \<le> length ds" "distinct (map date ds)" "\<forall>e \<in> set ds. dividend e \<noteq> None"
    and "\<forall>e \<in> set ds. valid_datetime (date e)" "\<forall>e \<in> set ds. date e < datetime_max"
  shows "daily_dividends ds False
           = (sort_key date ds,
              Inr (concat (map (\<lambda>(prev, nxt). pair_days prev nxt) (pairs (sort_key date ds)))))
         \<and> daily_dividends ds True
           = (sort_key date ds,
              spread (last (sort_key date ds)) \<lceil>mean_gap (sort_key date ds)\<rceil>
                (py_range \<lceil>mean_gap (sort_key date ds)\<rceil>)
                (concat (map (\<lambda>(prev, nxt). pair_days prev nxt) (pairs (sort_key date ds)))))
         \<and> (\<forall>out. snd (daily_dividends ds True) = Inr out \<longrightarrow>
               (\<exists>extra. out = concat (map (\<lambda>(prev, nxt). pair_days prev nxt)
                                        (pairs (sort_key date ds))) @ extra))
         \<and> (\<forall>(prev, nxt) \<in> set (pairs (sort_key date ds)).
               0 < date nxt - date prev
               \<and> length (pair_days prev nxt) = nat (date nxt - date prev))
         \<and> (\<forall>r \<in> set (concat (map (\<lambda>(prev, nxt). pair_days prev nxt) (pairs (sort_key date ds)))).
               date r \<noteq> date (last (sort_key date ds)))"
proof -
  let ?s = "sort_key date ds"
  let ?g = "\<lceil>mean_gap ?s\<rceil>"
  from assms(1) have ne: "ds \<noteq> []" by auto
  have srt: "sorted (map date ?s)" by (rule sorted_sort_key)
  have dst: "distinct (map date ?s)"
    using assms(2) by (metis distinct_map distinct_sort set_sort inj_on_def distinct_map)
  have "last ?s \<in> set ds" using ne by (metis last_in_set set_sort sort_key_simps(1) length_sort length_0_conv)
  with assms(5) have lt: "date (last ?s) < datetime_max" by blast
  have avg: "avg_days_between ds = Inr (mean_gap ?s)"
    by (rule avg_days_between_mean [OF assms(1)])
  have c1: "daily_dividends ds False = (?s, Inr (known_days ?s))"
    by (simp add: daily_dividends_closed [OF ne assms(3,4) lt])
  have c2: "daily_dividends ds True = (?s, spread (last ?s) ?g (py_range ?g) (known_days ?s))"
    by (simp add: daily_dividends_closed [OF ne assms(3,4) lt] avg)
  have c2': "\<forall>out. snd (daily_dividends ds True) = Inr out \<longrightarrow> (\<exists>extra. out = known_days ?s @ extra)"
    unfolding c2 using spread_prefix by auto
  have c3: "\<forall>(prev, nxt) \<in> set (pairs ?s).
               0 < date nxt - date prev \<and> length (pair_days prev nxt) = nat (date nxt - date prev)"
    using pairs_sorted_lt [OF srt dst] by (auto simp: pair_days_def)
  have c4: "\<forall>r \<in> set (known_days ?s). date r \<noteq> date (last ?s)"
    using known_days_before_last [OF srt dst] by fastforce
  from c1 c2 c2' c3 c4 show ?thesis unfolding known_days_def by blast
qed

theorem interpolation_pass_witness:
  "2 \<le> length [mk_Dividend 5 (Some 1), mk_Dividend 3 (Some 6)]
   \<and> distinct (map date [mk_Dividend 5 (Some 1), mk_Dividend 3 (Some 6)])
   \<and> map dividend [mk_Dividend 5 (Some 1), mk_Dividend 3 (Some 6)] = [Some 1, Some 6]
   \<and> daily_dividends [mk_Dividend 5 (Some 1), mk_Dividend 3 (Some 6)] False
        = ([mk_Dividend 3 (Some 6), mk_Dividend 5 (Some 1)],
           Inr [mk_Dividend 3 (Some 3), mk_Dividend 4 (Some 3)])"
proof -
  let ?ds = "[mk_Dividend 5 (Some 1), mk_Dividend 3 (Some 6)]"
  have h1: "2 \<le> length ?ds" by simp
  have h2: "distinct (map date ?ds)" by (simp add: mk_Dividend_def)
  have h3: "\<forall>e \<in> set ?ds. dividend e \<noteq> None" by (simp add: mk_Dividend_def)
  have m: "datetime_max = 3652059" by code_simp
  have h4: "\<forall>e \<in> set ?ds. valid_datetime (date e)"
    by (simp add: mk_Dividend_def valid_datetime_def m)
  have h5: "\<forall>e \<in> set ?ds. date e < datetime_max" by (simp add: mk_Dividend_def m)
  have s: "sort_key date ?ds = [mk_Dividend 3 (Some 6), mk_Dividend 5 (Some 1)]"
    by (simp add: mk_Dividend_def)
  have k: "concat (map (\<lambda>(prev, nxt). pair_days prev nxt)
                    (pairs [mk_Dividend 3 (Some 6), mk_Dividend 5 (Some 1)]))
           = [mk_Dividend 3 (Some 3), mk_Dividend 4 (Some 3)]"
    by (simp add: pairs_def pair_days_def mk_Dividend_def upt_rec)
  from interpolation_pass [OF h1 h2 h3 h4 h5] have
    "daily_dividends ?ds False
       = (sort_key date ?ds,
          Inr (concat (map (\<lambda>(prev, nxt). pair_days prev nxt) (pairs (sort_key date ?ds)))))"
    by blast
  then have "daily_dividends ?ds False
       = ([mk_Dividend 3 (Some 6), mk_Dividend 5 (Some 1)],
          Inr [mk_Dividend 3 (Some 3), mk_Dividend 4 (Some 3)])"
    by (simp only: s k)
  moreover have "map dividend ?ds = [Some 1, Some 6]" by (simp add: mk_Dividend_def)
  ultimately show ?thesis using h1 h2 by blast
qed

text \<open>
  C1 as stated fails for an event dated 9999-12-31: the day after the latest date, which
  the function computes before the loop, is not a datetime, and the call raises
  OverflowError without emitting anything.
\<close>

theorem interpolation_pass_counterexample:
  "daily_dividends [mk_Dividend (datetime 9999 12 1) (Some 1), mk_Dividend (datetime 9999 12 31) (Some 1)]
     False
   = ([mk_Dividend (datetime 9999 12 1) (Some 1), mk_Dividend (datetime 9999 12 31) (Some 1)],
      Inl OverflowError)"
  by code_simp

text \<open>
  C2 (amended). For at least two events (each a datetime carrying an amount) whose
  predicted period can be represented, that is the latest date is before 9999-12-31 and
  \<open>last.date + g - 1\<close> is not after it, the call with the flag on (the default) returns the
  output of the interpolation pass followed by exactly \<open>g\<close> records dated \<open>last.date + d\<close>
  for \<open>d\<close> in \<open>[0, g)\<close>, each with amount \<open>last.amount / g\<close>, where \<open>g\<close> is the mean gap of the
  date-sorted sequence rounded up and \<open>last\<close> its final event.
\<close>

theorem extrapolation_pass:
  assumes "2 \<le> length ds" "\<forall>e \<in> set ds. dividend e \<noteq> None"
    and "\<forall>e \<in> set ds. valid_datetime (date e)"
    and "date (last (sort_key date ds)) < datetime_max"
    and "date (last (sort_key date ds)) + \<lceil>mean_gap (sort_key date ds)\<rceil> - 1 \<le> datetime_max"
  shows "avg_days_between ds = Inr (mean_gap (sort_key date ds))
         \<and> 0 \<le> \<lceil>mean_gap (sort_key date ds)\<rceil>
         \<and> daily_dividends ds False = (sort_key date ds, Inr (known_days (sort_key date ds)))
         \<and> daily_dividends_default ds
             = (sort_key date ds,
                Inr (known_days (sort_key date ds)
                     @ future_days (last (sort_key date ds)) \<lceil>mean_gap (sort_key date ds)\<rceil>))
         \<and> length (future_days (last (sort_key date ds)) \<lceil>mean_gap (sort_key date ds)\<rceil>)
             = nat \<lceil>mean_gap (sort_key date ds)\<rceil>"
proof -
  let ?s = "sort_key date ds"
  let ?g = "\<lceil>mean_gap ?s\<rceil>"
  from assms(1) have ne: "ds \<noteq> []" by auto
  have avg: "avg_days_between ds = Inr (mean_gap ?s)"
    by (rule avg_days_between_mean [OF assms(1)])
  have "0 \<le> sum_list (gaps ?s)" by (rule gaps_nonneg) (rule sorted_sort_key)
  then have "0 \<le> mean_gap ?s" by (simp add: mean_gap_def)
  then have nn: "0 \<le> ?g" by (simp add: ceiling_le_iff [symmetric] less_ceiling_iff)
  have l: "last ?s \<in> set ds"
    using ne by (metis last_in_set set_sort sort_key_simps(1) length_sort length_0_conv)
  with assms(2) obtain a where a: "dividend (last ?s) = Some a" by auto
  from l assms(3) have lo: "1 \<le> date (last ?s)" by (auto simp: valid_datetime_def)
  from assms(5) have hi: "date (last ?s) + ?g \<le> datetime_max + 1" by simp
  have c1: "daily_dividends ds False = (?s, Inr (known_days ?s))"
    by (simp add: daily_dividends_closed [OF ne assms(2,3,4)])
  have c2: "daily_dividends_default ds = (?s, Inr (known_days ?s @ future_days (last ?s) ?g))"
    by (simp add: daily_dividends_default_def daily_dividends_closed [OF ne assms(2,3,4)] avg
        future_days_spread [OF a lo hi])
  have c3: "length (future_days (last ?s) ?g) = nat ?g"
    by (simp add: future_days_def)
  from avg nn c1 c2 c3 show ?thesis by blast
qed

theorem extrapolation_pass_witness:
  "2 \<le> length [mk_Dividend 10 (Some 1), mk_Dividend 3 (Some 6), mk_Dividend 5 (Some 2)]
   \<and> avg_days_between [mk_Dividend 10 (Some 1), mk_Dividend 3 (Some 6), mk_Dividend 5 (Some 2)]
        = Inr (7 / 2)
   \<and> \<lceil>7 / 2 :: rat\<rceil> = 4
   \<and> daily_dividends_default [mk_Dividend 10 (Some 1), mk_Dividend 3 (Some 6), mk_Dividend 5 (Some 2)]
        = ([mk_Dividend 3 (Some 6), mk_Dividend 5 (Some 2), mk_Dividend 10 (Some 1)],
           Inr [mk_Dividend 3 (Some 3), mk_Dividend 4 (Some 3),
                mk_Dividend 5 (Some (2 / 5)), mk_Dividend 6 (Some (2 / 5)),
                mk_Dividend 7 (Some (2 / 5)), mk_Dividend 8 (Some (2 / 5)),
                mk_Dividend 9 (Some (2 / 5)),
                mk_Dividend 10 (Some (1 / 4)), mk_Dividend 11 (Some (1 / 4)),
                mk_Dividend 12 (Some (1 / 4)), mk_Dividend 13 (Some (1 / 4))])"
proof -
  let ?ds = "[mk_Dividend 10 (Some 1), mk_Dividend 3 (Some 6), mk_Dividend 5 (Some 2)]"
  let ?s = "[mk_Dividend 3 (Some 6), mk_Dividend 5 (Some 2), mk_Dividend 10 (Some 1)]"
  have m: "datetime_max = 3652059" by code_simp
  have s: "sort_key date ?ds = ?s" by (simp add: mk_Dividend_def)
  have g: "mean_gap ?s = 7 / 2" by code_simp
  have c: "\<lceil>7 / 2 :: rat\<rceil> = 4" by code_simp
  have l: "last ?s = mk_Dividend 10 (Some 1)" by simp
  have k: "known_days ?s = [mk_Dividend 3 (Some 3), mk_Dividend 4 (Some 3),
                mk_Dividend 5 (Some (2 / 5)), mk_Dividend 6 (Some (2 / 5)),
                mk_Dividend 7 (Some (2 / 5)), mk_Dividend 8 (Some (2 / 5)),
                mk_Dividend 9 (Some (2 / 5))]"
    by code_simp
  have f: "future_days (mk_Dividend 10 (Some 1)) 4
           = [mk_Dividend 10 (Some (1 / 4)), mk_Dividend 11 (Some (1 / 4)),
              mk_Dividend 12 (Some (1 / 4)), mk_Dividend 13 (Some (1 / 4))]"
    by code_simp
  have h1: "2 \<le> length ?ds" by simp
  have h2: "\<forall>e \<in> set ?ds. dividend e \<noteq> None" by (simp add: mk_Dividend_def)
  have h3: "\<forall>e \<in> set ?ds. valid_datetime (date e)"
    by (simp add: mk_Dividend_def valid_datetime_def m)
  have h4: "date (last (sort_key date ?ds)) < datetime_max"
    unfolding s l by (simp add: mk_Dividend_def m)
  have h5: "date (last (sort_key date ?ds)) + \<lceil>mean_gap (sort_key date ?ds)\<rceil> - 1 \<le> datetime_max"
    unfolding s l g c by (simp add: mk_Dividend_def m)
  from extrapolation_pass [OF h1 h2 h3 h4 h5]
  have "avg_days_between ?ds = Inr (mean_gap (sort_key date ?ds))"
    and "daily_dividends_default ?ds
             = (sort_key date ?ds,
                Inr (known_days (sort_key date ?ds)
                     @ future_days (last (sort_key date ?ds)) \<lceil>mean_gap (sort_key date ?ds)\<rceil>))"
    by blast+
  then have "avg_days_between ?ds = Inr (7 / 2)"
    and "daily_dividends_default ?ds = (?s, Inr (known_days ?s @ future_days (mk_Dividend 10 (Some 1)) 4))"
    unfolding s l g c by simp_all
  then show ?thesis unfolding k f using h1 c by simp
qed

text \<open>
  C2 as stated fails when the predicted period runs past 9999-12-31: for events on
  9999-12-01 and 9999-12-17 the sixteenth predicted day is not a datetime and the call
  raises OverflowError.
\<close>

theorem extrapolation_pass_counterexample:
  "snd (daily_dividends_default
          [mk_Dividend (datetime 9999 12 1) (Some 1), mk_Dividend (datetime 9999 12 17) (Some 1)])
   = Inl OverflowError"
  by code_simp

text \<open>
  C3 (amended). On the three events (2020-08-11, 0.3), (2020-09-10, 0.3), (2020-10-10, 0.3)
  with extrapolation on, the expansion yields exactly ninety records, equal as a multiset
  to the expected list of the test, each with amount 0.01; their dates are the calendar
  days 2020-08-11 through 2020-11-08 inclusive.
\<close>

theorem end_to_end_expansion:
  "\<exists>days. snd (daily_dividends_default test_input) = Inr days
      \<and> length days = 90
      \<and> mset days = mset test_corr
      \<and> map date days = [datetime 2020 8 11..datetime 2020 11 8]
      \<and> map dividend days = replicate 90 (Some (1 / 100))"
proof -
  have "length test_corr = 90" by (simp add: test_corr_def)
  with test_run_value test_corr_dates test_corr_amounts show ?thesis by blast
qed

text \<open>
  C3 as stated fails: ninety days from 2020-08-11 end on 2020-11-08, and no record is dated
  2020-11-09.
\<close>

theorem end_to_end_counterexample:
  "snd (daily_dividends_default test_input) = Inr test_corr
   \<and> map date test_corr = [datetime 2020 8 11..datetime 2020 11 8]
   \<and> datetime 2020 11 9 \<notin> set (map date test_corr)"
proof -
  have "datetime 2020 11 9 \<notin> set [datetime 2020 8 11..datetime 2020 11 8]"
    by (simp add: datetime_def days_before_year_def days_before_month_def is_leap_def)
  with test_run_value test_corr_dates show ?thesis by simp
qed

text \<open>
  C4 (amended). For fewer than two events no dedicated error exists. On the empty input
  \<open>avg_days_between\<close> returns 0 and \<open>daily_dividends\<close> raises ValueError (from \<open>min\<close>); on
  a single event \<open>avg_days_between\<close> raises ZeroDivisionError, and \<open>daily_dividends\<close> raises
  OverflowError when the event is dated 9999-12-31, otherwise ZeroDivisionError with the
  flag on and returns the empty list with the flag off.
\<close>

theorem fewer_than_two_events:
  assumes "length ds < 2" "\<forall>e \<in> set ds. valid_datetime (date e)"
  shows "avg_days_between ds = (if ds = [] then Inr 0 else Inl ZeroDivisionError)
         \<and> daily_dividends ds True
             = (ds, if ds = [] then Inl ValueError
                    else if date (hd ds) = datetime_max then Inl OverflowError
                    else Inl ZeroDivisionError)
         \<and> daily_dividends ds False
             = (ds, if ds = [] then Inl ValueError
                    else if date (hd ds) = datetime_max then Inl OverflowError
                    else Inr [])"
proof (cases ds)
  case Nil
  then show ?thesis
    by (simp add: avg_days_between_def py_truediv_def daily_dividends_def py_min_key_def)
next
  case (Cons x xs)
  with assms(1) have ds: "ds = [x]" by simp
  from assms(2) ds have v: "1 \<le> date x" "date x \<le> datetime_max"
    by (simp_all add: valid_datetime_def)
  have a: "avg_days_between [x] = Inl ZeroDivisionError"
    by (simp add: avg_days_between_def py_truediv_def)
  show ?thesis unfolding ds using v
    by (simp add: a daily_dividends_def py_min_key_def py_max_key_def py_date_add_def
        valid_datetime_def)
qed

theorem fewer_than_two_events_witness:
  "length [mk_Dividend 5 (Some 1)] < 2
   \<and> avg_days_between [mk_Dividend 5 (Some 1)] = Inl ZeroDivisionError
   \<and> daily_dividends [mk_Dividend 5 (Some 1)] True = ([mk_Dividend 5 (Some 1)], Inl ZeroDivisionError)
   \<and> daily_dividends [mk_Dividend 5 (Some 1)] False = ([mk_Dividend 5 (Some 1)], Inr [])"
proof -
  have m: "datetime_max = 3652059" by code_simp
  have h: "length [mk_Dividend 5 (Some 1)] < 2" by simp
  have v: "\<forall>e \<in> set [mk_Dividend 5 (Some 1)]. valid_datetime (date e)"
    by (simp add: mk_Dividend_def valid_datetime_def m)
  have n: "date (hd [mk_Dividend 5 (Some 1)]) \<noteq> datetime_max"
    by (simp add: mk_Dividend_def m)
  from fewer_than_two_events [OF h v] h n show ?thesis by simp
qed

text \<open>
  C4 as stated fails: averaging the empty input returns a value, interpolating a single
  event with the flag off returns the empty list, and averaging a single event is a
  division by zero.
\<close>

theorem fewer_than_two_counterexample:
  "avg_days_between [] = Inr 0
   \<and> daily_dividends [mk_Dividend 5 (Some 1)] False = ([mk_Dividend 5 (Some 1)], Inr [])
   \<and> avg_days_between [mk_Dividend 5 (Some 1)] = Inl ZeroDivisionError"
  by code_simp

text \<open>
  C5 (amended). For two consecutive events with the same date the inner loop runs over an
  empty range: nothing is appended, no division is evaluated, no error is raised, and the
  outer loop goes on with the next pair.
\<close>

theorem zero_gap_skipped:
  assumes "date prev = date nxt"
  shows "spread prev (date nxt - date prev) (py_range (date nxt - date prev)) days = Inr days
         \<and> interpolate prev (nxt # rest) days = interpolate nxt rest days"
  using assms by (simp add: py_range_def)

theorem zero_gap_skipped_witness:
  "date (mk_Dividend 5 (Some 1)) = date (mk_Dividend 5 (Some 2))
   \<and> interpolate (mk_Dividend 5 (Some 1)) [mk_Dividend 5 (Some 2), mk_Dividend 7 (Some 4)] []
       = Inr [mk_Dividend 5 (Some 1), mk_Dividend 6 (Some 1)]"
proof -
  have h: "date (mk_Dividend 5 (Some 1)) = date (mk_Dividend 5 (Some 2))"
    by (simp add: mk_Dividend_def)
  have "interpolate (mk_Dividend 5 (Some 2)) [mk_Dividend 7 (Some 4)] []
          = Inr [mk_Dividend 5 (Some 1), mk_Dividend 6 (Some 1)]"
    by code_simp
  with zero_gap_skipped [OF h, of "[]" "[mk_Dividend 7 (Some 4)]"] h show ?thesis by simp
qed

text \<open>
  C5 as stated fails: on two events with the same date the call returns normally, with an
  empty output.
\<close>

theorem zero_gap_counterexample:
  "daily_dividends [mk_Dividend 5 (Some 1), mk_Dividend 5 (Some 2)] True
     = ([mk_Dividend 5 (Some 1), mk_Dividend 5 (Some 2)], Inr [])"
  by code_simp

text \<open>
  C6 (amended). When \<open>read_src_file\<close> returns, it has skipped exactly the first non-empty
  record (the header), built one event per remaining row in row order, and then sorted
  these events by date (stably): the result is in ascending date order and holds exactly
  the events of the rows.
\<close>

theorem read_src_file_sorted:
  assumes "read_src_file sp tf records = Inr ds"
  shows "\<exists>header rows es.
           filter (\<lambda>r. r \<noteq> []) records = header # rows
           \<and> map (row_to_Dividend sp tf) rows = map Inr es
           \<and> ds = sort_key date es
           \<and> sorted (map date ds) \<and> mset ds = mset es"
proof -
  from assms obtain header rows where c: "csv_file records = header # rows"
    by (auto simp: read_src_file_def split: list.splits)
  with assms obtain out where o: "read_rows sp tf rows [] = Inr out" and ds: "ds = sort_key date out"
    by (auto simp: read_src_file_def split: sum.splits)
  from read_rows_Inr [OF o] have m: "map (row_to_Dividend sp tf) rows = map Inr out" by simp
  from c m ds show ?thesis unfolding csv_file_def by auto
qed

theorem read_src_file_sorted_witness:
  "read_src_file sample_strptime sample_float sample_records
     = Inr [mk_Dividend (datetime 2020 8 11) (Some (3 / 10)), mk_Dividend (datetime 2020 9 10) (Some (3 / 10))]
   \<and> sorted (map date [mk_Dividend (datetime 2020 8 11) (Some (3 / 10)),
                         mk_Dividend (datetime 2020 9 10) (Some (3 / 10))])"
proof -
  have h: "read_src_file sample_strptime sample_float sample_records
     = Inr [mk_Dividend (datetime 2020 8 11) (Some (3 / 10)), mk_Dividend (datetime 2020 9 10) (Some (3 / 10))]"
    by code_simp
  from read_src_file_sorted [OF h] h show ?thesis by blast
qed

text \<open>
  C6 as stated fails: rows dated 2020-09-10, 2020-08-11 come back as 2020-08-11,
  2020-09-10, not in row order.
\<close>

theorem read_src_file_counterexample:
  "read_src_file sample_strptime sample_float sample_records
     = Inr [mk_Dividend (datetime 2020 8 11) (Some (3 / 10)), mk_Dividend (datetime 2020 9 10) (Some (3 / 10))]
   \<and> map (row_to_Dividend sample_strptime sample_float) (tl sample_records)
     = [Inr (mk_Dividend (datetime 2020 9 10) (Some (3 / 10))), Inr (mk_Dividend (datetime 2020 8 11) (Some (3 / 10)))]"
  by code_simp

text \<open>
  C7. For at least two events, \<open>avg_days_between\<close> returns the arithmetic mean of the day
  gaps between the consecutive events of the date-sorted sequence (in exact arithmetic);
  the witness is the test's input 2020-10-10, 2020-09-10, 2020-08-11 with gaps 30, 30 and
  mean 30.
\<close>

theorem avg_days_between_is_mean:
  assumes "2 \<le> length ds"
  shows "avg_days_between ds = Inr (mean_gap (sort_key date ds))"
  using assms by (rule avg_days_between_mean)

theorem avg_days_between_is_mean_witness:
  "2 \<le> length [mk_Dividend (datetime 2020 10 10) None, mk_Dividend (datetime 2020 9 10) None,
                 mk_Dividend (datetime 2020 8 11) None]
   \<and> gaps (sort_key date [mk_Dividend (datetime 2020 10 10) None, mk_Dividend (datetime 2020 9 10) None,
                 mk_Dividend (datetime 2020 8 11) None]) = [30, 30]
   \<and> avg_days_between [mk_Dividend (datetime 2020 10 10) None, mk_Dividend (datetime 2020 9 10) None,
                 mk_Dividend (datetime 2020 8 11) None] = Inr 30"
proof -
  let ?ds = "[mk_Dividend (datetime 2020 10 10) None, mk_Dividend (datetime 2020 9 10) None,
                 mk_Dividend (datetime 2020 8 11) None]"
  have h: "2 \<le> length ?ds" by simp
  have g: "gaps (sort_key date ?ds) = [30, 30]" by code_simp
  have m: "mean_gap (sort_key date ?ds) = 30" unfolding mean_gap_def g by simp
  from avg_days_between_is_mean [OF h] h g m show ?thesis by simp
qed

text \<open>
  C8. The claim asks for the event with the greatest date strictly before the query date.
  For the single event 2020-10-18 and the query 2020-10-21 that event exists, and the code
  returns None: the loop only returns when it meets an event after the query date.
\<close>

theorem last_dividend_before_none:
  "last_dividend_before [mk_Dividend (datetime 2020 10 18) None] (datetime 2020 10 21) = Inr None"
  by code_simp

text \<open>
  C9. \<open>daily_dividends\<close> reorders the caller's list in place: whatever the call returns or
  raises, the list is afterwards in ascending date order and holds exactly the elements it
  held before (the records themselves are untouched).
\<close>

theorem daily_dividends_sorts_input:
  "sorted (map date (fst (daily_dividends ds p))) \<and> mset (fst (daily_dividends ds p)) = mset ds"
  by (simp add: daily_dividends_def Let_def)

text \<open>
  C10. Amount conservation: for a consecutive pair of datetimes with a positive day gap
  whose earlier event carries the amount \<open>a\<close>, the records the inner loop appends for the
  pair are \<open>pair_days prev nxt\<close>, the outer loop goes on from them and returns them when the
  pair is the last one, and their amounts add up to \<open>a\<close> exactly (in exact rational
  arithmetic).
\<close>

theorem pair_amount_conservation:
  assumes "date prev < date nxt" "dividend prev = Some a"
    and "valid_datetime (date prev)" "valid_datetime (date nxt)"
  shows "spread prev (date nxt - date prev) (py_range (date nxt - date prev)) days
           = Inr (days @ pair_days prev nxt)
         \<and> interpolate prev (nxt # rest) days = interpolate nxt rest (days @ pair_days prev nxt)
         \<and> interpolate prev [nxt] days = Inr (days @ pair_days prev nxt)
         \<and> sum_list (map (\<lambda>r. the (dividend r)) (pair_days prev nxt)) = a"
proof -
  from assms(3,4) have lo: "1 \<le> date prev"
    and hi: "date prev + (date nxt - date prev) \<le> datetime_max + 1"
    by (simp_all add: valid_datetime_def)
  have sp: "\<And>days. spread prev (date nxt - date prev) (py_range (date nxt - date prev)) days
              = Inr (days @ pair_days prev nxt)"
    by (simp add: spread_range [OF assms(2) lo hi] pair_days_def assms(2) mk_Dividend_def)
  from sp pair_days_sum [OF assms(1,2)] show ?thesis by (simp add: Let_def)
qed

theorem pair_amount_conservation_witness:
  "date (mk_Dividend 3 (Some 6)) < date (mk_Dividend 7 (Some 1))
   \<and> dividend (mk_Dividend 3 (Some 6)) = Some 6
   \<and> interpolate (mk_Dividend 3 (Some 6)) [mk_Dividend 7 (Some 1)] []
       = Inr [mk_Dividend 3 (Some (3 / 2)), mk_Dividend 4 (Some (3 / 2)),
              mk_Dividend 5 (Some (3 / 2)), mk_Dividend 6 (Some (3 / 2))]
   \<and> sum_list (map (\<lambda>r. the (dividend r))
        [mk_Dividend 3 (Some (3 / 2)), mk_Dividend 4 (Some (3 / 2)),
         mk_Dividend 5 (Some (3 / 2)), mk_Dividend 6 (Some (3 / 2))]) = 6"
proof -
  have m: "datetime_max = 3652059" by code_simp
  have h1: "date (mk_Dividend 3 (Some 6)) < date (mk_Dividend 7 (Some 1))"
    by (simp add: mk_Dividend_def)
  have h2: "dividend (mk_Dividend 3 (Some 6)) = Some 6"
    by (simp add: mk_Dividend_def)
  have h3: "valid_datetime (date (mk_Dividend 3 (Some 6)))"
    by (simp add: mk_Dividend_def valid_datetime_def m)
  have h4: "valid_datetime (date (mk_Dividend 7 (Some 1)))"
    by (simp add: mk_Dividend_def valid_datetime_def m)
  have p: "pair_days (mk_Dividend 3 (Some 6)) (mk_Dividend 7 (Some 1))
            = [mk_Dividend 3 (Some (3 / 2)), mk_Dividend 4 (Some (3 / 2)),
               mk_Dividend 5 (Some (3 / 2)), mk_Dividend 6 (Some (3 / 2))]"
    by code_simp
  from pair_amount_conservation [OF h1 h2 h3 h4, of "[]" "[]"] h1 h2 show ?thesis
    unfolding p by simp
qed

end
